theory Spec2Isabelle
  imports Complex_Main "HOL-Library.Word" "HOL-Library.Sublist"
begin

section \<open>Tensors as nested lists\<close>

text \<open>
  The program is written over PyTorch tensors. A tensor of shape \<open>[bs, n]\<close> is a list of
  \<open>bs\<close> rows of length \<open>n\<close>; a box tensor \<open>[bs, n, 4]\<close> is a list of rows of boxes
  \<open>(y1, x1, y2, x2)\<close>. Float entries are idealised as real numbers; a \<open>ByteTensor\<close>
  (the result of a comparison) holds 8-bit words; an \<open>IntTensor\<close> holds integers.
\<close>

type_synonym box = "real \<times> real \<times> real \<times> real"
type_synonym index = "nat \<times> nat"

datatype error = TypeError | IndexError | RuntimeError | ValueError

definition eq_t :: "int list list \<Rightarrow> int \<Rightarrow> 8 word list list" where
  \<comment> \<open>\<open>roi_level == v\<close>: elementwise comparison, a byte tensor of 0 and 1\<close>
  "eq_t t v = map (map (\<lambda>l. if l = v then 1 else 0)) t"

definition add_t :: "8 word list list \<Rightarrow> 8 word list list \<Rightarrow> 8 word list list" where
  \<comment> \<open>\<open>a + b\<close> on byte tensors of the same shape\<close>
  "add_t a b = map2 (map2 (+)) a b"

definition any_t :: "8 word list list \<Rightarrow> bool" where
  \<comment> \<open>\<open>t.any()\<close>\<close>
  "any_t t = list_ex (list_ex (\<lambda>v. v \<noteq> 0)) t"

definition nonzero :: "8 word list list \<Rightarrow> index list" where
  \<comment> \<open>\<open>torch.nonzero(t)\<close>: the (row, column) pairs of the nonzero entries, row-major\<close>
  "nonzero t =
     concat (map (\<lambda>b. map (\<lambda>s. (b, s)) (filter (\<lambda>s. t ! b ! s \<noteq> 0) [0..<length (t ! b)]))
                 [0..<length t])"

definition clamp :: "int \<Rightarrow> int \<Rightarrow> int \<Rightarrow> int" where
  \<comment> \<open>\<open>v.clamp(lo, hi)\<close>\<close>
  "clamp v lo hi = min (max v lo) hi"

section \<open>Dev: level assignment\<close>

definition find_big_box :: "int \<Rightarrow> int list list \<Rightarrow> 8 word list list" where
  "find_big_box level roi_level =
     (if level = 2 then add_t (eq_t roi_level 4) (eq_t roi_level 5)
      else if level = 3 then eq_t roi_level 5
      else eq_t roi_level (- 1))"

definition log2 :: "real \<Rightarrow> real" where
  \<comment> \<open>Modelled from the spec: \<open>tools/utils.log2\<close> is not among the sources; the spec's
      formula names it the base-2 logarithm.\<close>
  "log2 x = ln x / ln 2"

definition box_level :: "nat \<times> nat \<Rightarrow> box \<Rightarrow> int" where
  \<comment> \<open>One entry of \<open>roi_level\<close> in \<open>Dev.forward\<close>. Where the argument of the logarithm is
      not positive the float computation yields \<open>-inf\<close> or \<open>NaN\<close>, whose conversion by
      \<open>.int()\<close> is at most 0, so that \<open>clamp(2, 5)\<close> gives 2.\<close>
  "box_level image_shape b =
     (case b of (y1, x1, y2, x2) \<Rightarrow>
        let h = y2 - y1; w = x2 - x1;
            image_area = real (fst image_shape * snd image_shape)
        in if 0 < h * w \<and> 0 < image_area
           then clamp (round (4 + log2 (sqrt (h * w) / (224 / sqrt image_area)))) 2 5
           else 2)"

definition roi_level_of :: "nat \<times> nat \<Rightarrow> box list list \<Rightarrow> int list list" where
  "roi_level_of image_shape rois = map (map (box_level image_shape)) rois"



section \<open>Dev: pooling in dynamic mode\<close>

text \<open>
  \<open>Dev.forward\<close> multiplies a box tensor in place, so box tensors live in an explicit
  store: a list of tensors addressed by position. Advanced indexing
  (\<open>rois[i, j, :]\<close>) returns a new tensor, which is allocated at the end of the store;
  \<open>t *= f\<close> overwrites the cell of \<open>t\<close>. An error carries the store at the moment it is
  raised.

  The networks and the crop operator are code that is not among the sources
  (\<open>lib/roialign\<close>, \<open>lib/layers\<close>, the learned layers of \<open>torch.nn\<close>); they are fields of
  the module, taken as parameters. \<open>crop_and_resize sz fm box ind\<close> is the crop of
  size \<open>sz\<close> of one box from image \<open>ind\<close> of the feature maps \<open>fm\<close>;
  \<open>CropAndResizeFunction\<close> computes it for each box of its argument independently.
\<close>

datatype tensor = T3 "box list list" | T2 "box list"

type_synonym store = "tensor list"

record ('fm, 'c, 'd) Dev =
  use_dev :: bool
  pool_size :: nat
  mask_pool_size :: nat
  feat_pool_size :: nat
  upsample_fac :: real
  image_shape :: "nat \<times> nat"
  upsample :: "'fm \<Rightarrow> 'fm"
  feat_extract :: "'c list \<Rightarrow> 'd"
  crop_and_resize :: "nat \<Rightarrow> 'fm \<Rightarrow> box \<Rightarrow> nat \<Rightarrow> 'c"
  pyramid_roi_align :: "box list list \<Rightarrow> 'fm list \<Rightarrow> nat \<Rightarrow> nat \<times> nat \<Rightarrow> 'c list"

record ('c, 'd) acc =
  pooled :: "'c list list"
  mask :: "'c list list"
  box_to_level :: "index list list"
  feat_out :: "(int list \<times> 'd option \<times> int list \<times> 'd) list"

definition rois_at :: "store \<Rightarrow> nat \<Rightarrow> box list list" where
  "rois_at st r = (case st ! r of T3 t \<Rightarrow> t | T2 t \<Rightarrow> [])"

definition boxes_at :: "store \<Rightarrow> nat \<Rightarrow> box list" where
  "boxes_at st a = (case st ! a of T2 t \<Rightarrow> t | T3 t \<Rightarrow> [])"

definition alloc :: "store \<Rightarrow> tensor \<Rightarrow> store \<times> nat" where
  "alloc st t = (st @ [t], length st)"

definition scale_box :: "real \<Rightarrow> box \<Rightarrow> box" where
  "scale_box f b = (case b of (y1, x1, y2, x2) \<Rightarrow> (y1 * f, x1 * f, y2 * f, x2 * f))"

definition scale_tensor :: "real \<Rightarrow> tensor \<Rightarrow> tensor" where
  "scale_tensor f t = (case t of T3 u \<Rightarrow> T3 (map (map (scale_box f)) u)
                               | T2 u \<Rightarrow> T2 (map (scale_box f) u))"

definition mul_inplace :: "store \<Rightarrow> nat \<Rightarrow> real \<Rightarrow> store" where
  \<comment> \<open>\<open>t *= f\<close> for the tensor at address \<open>a\<close>\<close>
  "mul_inplace st a f = st[a := scale_tensor f (st ! a)]"

definition index_rois :: "box list list \<Rightarrow> index list \<Rightarrow> box list" where
  \<comment> \<open>\<open>rois[index[:, 0], index[:, 1], :]\<close>; the indices come from a tensor of the
      shape of \<open>rois\<close>, so they are in range\<close>
  "index_rois rois idx = map (\<lambda>(b, s). rois ! b ! s) idx"

definition index_gt :: "int list list \<Rightarrow> index list \<Rightarrow> error + int list" where
  \<comment> \<open>\<open>roi_cls_gt[index[:, 0], index[:, 1]]\<close>\<close>
  "index_gt gt idx =
     (if list_all (\<lambda>(b, s). b < length gt \<and> s < length (gt ! b)) idx
      then Inr (map (\<lambda>(b, s). gt ! b ! s) idx) else Inl IndexError)"

definition crops :: "('fm, 'c, 'd) Dev \<Rightarrow> nat \<Rightarrow> 'fm \<Rightarrow> box list \<Rightarrow> nat list \<Rightarrow> 'c list" where
  \<comment> \<open>\<open>CropAndResizeFunction(sz, sz)(fm, boxes, box_ind)\<close>\<close>
  "crops dev sz fm boxes box_ind = map2 (crop_and_resize dev sz fm) boxes box_ind"

definition big_part ::
  "('fm, 'c, 'd) Dev \<Rightarrow> 'fm \<Rightarrow> store \<Rightarrow> nat \<Rightarrow> int list list option \<Rightarrow> 8 word list list
     \<Rightarrow> (error \<times> store) + (store \<times> int list \<times> 'd option)" where
  \<comment> \<open>the branch on \<open>big_ix.any()\<close> in \<open>Dev.forward\<close>\<close>
  "big_part dev curr_feat_maps st r roi_cls_gt big_ix =
     (if \<not> any_t big_ix then Inr (st, [], None)
      else
        let big_index = nonzero big_ix;
            (st1, a) = alloc st (T2 (index_rois (rois_at st r) big_index))
        in case roi_cls_gt of
             None \<Rightarrow> Inl (TypeError, st1)
           | Some gt \<Rightarrow>
               (case index_gt gt big_index of
                  Inl e \<Rightarrow> Inl (e, st1)
                | Inr big_box_gt \<Rightarrow>
                    let big_box_ind = map fst big_index;
                        big_feat = crops dev (feat_pool_size dev) curr_feat_maps
                                     (boxes_at st1 a) big_box_ind
                    in Inr (st1, big_box_gt, Some (feat_extract dev big_feat))))"

definition level_body ::
  "('fm, 'c, 'd) Dev \<Rightarrow> 'fm list \<Rightarrow> nat \<Rightarrow> int list list option \<Rightarrow> int list list
     \<Rightarrow> nat \<Rightarrow> int \<Rightarrow> store \<times> ('c, 'd) acc \<Rightarrow> (error \<times> store) + (store \<times> ('c, 'd) acc)" where
  \<comment> \<open>one iteration of \<open>for i, level in enumerate(range(2, 6))\<close>\<close>
  "level_body dev x r roi_cls_gt roi_level i level sa =
     (case sa of (st, ac) \<Rightarrow>
        let ix = eq_t roi_level level in
        if \<not> any_t ix then Inr (st, ac)
        else if length x \<le> i then Inl (IndexError, st)
        else
          let curr_feat_maps = x ! i;
              use_upsample = (level = 2 \<or> level = 3);
              big_ix = find_big_box level roi_level
          in case big_part dev curr_feat_maps st r roi_cls_gt big_ix of
               Inl e \<Rightarrow> Inl e
             | Inr (st1, big_box_gt, big_output) \<Rightarrow>
                 let index = nonzero ix;
                     (st2, a) = alloc st1 (T2 (index_rois (rois_at st1 r) index))
                 in case roi_cls_gt of
                      None \<Rightarrow> Inl (TypeError, st2)
                    | Some gt \<Rightarrow>
                        (case index_gt gt index of
                           Inl e \<Rightarrow> Inl (e, st2)
                         | Inr small_box_gt \<Rightarrow>
                             let box_ind = map fst index;
                                 st3 = (if use_upsample
                                        then mul_inplace st2 a (upsample_fac dev) else st2);
                                 feat_maps = (if use_upsample
                                        then upsample dev curr_feat_maps else curr_feat_maps);
                                 small_boxes = boxes_at st3 a;
                                 pooled_features =
                                   crops dev (pool_size dev) feat_maps small_boxes box_ind;
                                 mask_and_feat =
                                   crops dev (mask_pool_size dev) feat_maps small_boxes box_ind
                             in Inr (st3,
                                  ac\<lparr>pooled := pooled ac @ [pooled_features],
                                     mask := mask ac @ [mask_and_feat],
                                     box_to_level := box_to_level ac @ [index],
                                     feat_out :=
                                       (if use_upsample
                                        then feat_out ac @
                                          [(big_box_gt, big_output, small_box_gt,
                                            feat_extract dev mask_and_feat)]
                                        else feat_out ac)\<rparr>)))"

fun level_loop ::
  "('fm, 'c, 'd) Dev \<Rightarrow> 'fm list \<Rightarrow> nat \<Rightarrow> int list list option \<Rightarrow> int list list
     \<Rightarrow> (nat \<times> int) list \<Rightarrow> store \<times> ('c, 'd) acc
     \<Rightarrow> (error \<times> store) + (store \<times> ('c, 'd) acc)" where
  "level_loop dev x r roi_cls_gt roi_level [] sa = Inr sa"
| "level_loop dev x r roi_cls_gt roi_level ((i, level) # ls) sa =
     (case level_body dev x r roi_cls_gt roi_level i level sa of
        Inl e \<Rightarrow> Inl e
      | Inr sa' \<Rightarrow> level_loop dev x r roi_cls_gt roi_level ls sa')"

fun scatter :: "'c list list \<Rightarrow> index list \<Rightarrow> 'c list \<Rightarrow> error + 'c list list" where
  \<comment> \<open>\<open>out[idx[:, 0], idx[:, 1], :, :, :] = vals\<close>\<close>
  "scatter out [] [] = Inr out"
| "scatter out ((b, s) # idx) (v # vs) =
     (if b < length out \<and> s < length (out ! b)
      then scatter (out[b := (out ! b)[s := v]]) idx vs else Inl IndexError)"
| "scatter out _ _ = Inl RuntimeError"

definition rois_size :: "box list list \<Rightarrow> nat \<times> nat" where
  \<comment> \<open>\<open>rois.size()\<close>, first two dimensions\<close>
  "rois_size rois = (length rois, case rois of [] \<Rightarrow> 0 | row # _ \<Rightarrow> length row)"

definition reshape_result ::
  "'c list list \<Rightarrow> 'c list list \<Rightarrow> index list list \<Rightarrow> nat \<times> nat
     \<Rightarrow> error + ('c::zero) list \<times> 'c list" where
  \<comment> \<open>\<open>Dev._reshape_result\<close>; \<open>torch.cat\<close> of an empty list raises\<close>
  "reshape_result pooled_l mask_l box_to_level_l sz =
     (if pooled_l = [] \<or> mask_l = [] \<or> box_to_level_l = [] then Inl RuntimeError
      else
        let pooled_c = concat pooled_l; mask_c = concat mask_l;
            btl = concat box_to_level_l
        in case scatter (replicate (fst sz) (replicate (snd sz) 0)) btl pooled_c of
             Inl e \<Rightarrow> Inl e
           | Inr pooled_out \<Rightarrow>
               (case scatter (replicate (fst sz) (replicate (snd sz) 0)) btl mask_c of
                  Inl e \<Rightarrow> Inl e
                | Inr mask_out \<Rightarrow> Inr (concat pooled_out, concat mask_out)))"

definition pyramid_levels :: "(nat \<times> int) list" where
  \<comment> \<open>\<open>enumerate(range(2, 6))\<close>\<close>
  "pyramid_levels = [(0, 2), (1, 3), (2, 4), (3, 5)]"

definition forward ::
  "('fm, 'c::zero, 'd) Dev \<Rightarrow> 'fm list \<Rightarrow> store \<Rightarrow> nat \<Rightarrow> int list list option
     \<Rightarrow> (error \<times> store) +
        (store \<times> 'c list \<times> 'c list \<times> (int list \<times> 'd option \<times> int list \<times> 'd) list option)" where
  \<comment> \<open>\<open>Dev.forward(x, rois, roi_cls_gt)\<close>; \<open>rois\<close> is the tensor at address \<open>r\<close>\<close>
  "forward dev x st r roi_cls_gt =
     (if length st \<le> r then Inl (RuntimeError, st)
      else if \<not> use_dev dev then
        Inr (st, pyramid_roi_align dev (rois_at st r) x (pool_size dev) (image_shape dev),
                 pyramid_roi_align dev (rois_at st r) x (mask_pool_size dev) (image_shape dev),
                 None)
      else
        let roi_level = roi_level_of (image_shape dev) (rois_at st r) in
        case level_loop dev x r roi_cls_gt roi_level pyramid_levels
               (st, \<lparr>pooled = [], mask = [], box_to_level = [], feat_out = []\<rparr>) of
          Inl e \<Rightarrow> Inl e
        | Inr (st', ac) \<Rightarrow>
            (case reshape_result (pooled ac) (mask ac) (box_to_level ac)
                    (rois_size (rois_at st' r)) of
               Inl e \<Rightarrow> Inl (e, st')
             | Inr (pooled_out, mask_out) \<Rightarrow>
                 Inr (st', pooled_out, mask_out, Some (feat_out ac))))"

definition final_store :: "(error \<times> store) + (store \<times> 'a) \<Rightarrow> store" where
  \<comment> \<open>the store when the call returns or raises\<close>
  "final_store res = (case res of Inl (e, st) \<Rightarrow> st | Inr (st, out) \<Rightarrow> st)"







definition const_dev :: "(real, real, unit) Dev" where
  \<comment> \<open>A concrete module for evaluation: every feature map is constant (it is
      represented by its value), so is every crop taken from it (whatever the box), and
      the upsampling network returns its argument.\<close>
  "const_dev = \<lparr>use_dev = True, pool_size = 7, mask_pool_size = 14, feat_pool_size = 14,
      upsample_fac = 2, image_shape = (224, 224),
      upsample = (\<lambda>fm. fm), feat_extract = (\<lambda>cs. ()),
      crop_and_resize = (\<lambda>sz fm b ind. fm),
      pyramid_roi_align = (\<lambda>rois x sz sh. [])\<rparr>"

section \<open>MaskRCNN.meta_loss\<close>

text \<open>
  A feature tensor of shape \<open>[F, C]\<close> (feature dimension by classes) is a list of \<open>F\<close>
  rows of length \<open>C\<close>; a count tensor of shape \<open>[1, C]\<close> is a matrix with one row. The
  inputs \<open>big_feat\<close>, \<open>small_feat\<close> have shape \<open>[G, S, F, C]\<close>, the counts
  \<open>[G, S, 1, C]\<close>; the buffer has shape \<open>[K, F, C]\<close>, its counts \<open>[K, 1, C]\<close>. The
  operations below are the elementwise ones of the source, with the broadcast of a count
  row over the feature rows written out. Tensors are assumed to have the shapes the
  source documents; floats are read as real numbers.
\<close>

type_synonym mat = "real list list"

record meta_state =
  buffer :: "mat list"
  buffer_cnt :: "mat list"

definition EPS :: real where
  \<comment> \<open>\<open>EPS = 10e-20\<close>\<close>
  "EPS = 10 / 10 ^ 20"

definition vadd :: "real list \<Rightarrow> real list \<Rightarrow> real list" where
  "vadd a b = map2 (+) a b"

definition madd :: "mat \<Rightarrow> mat \<Rightarrow> mat" where
  "madd a b = map2 vadd a b"

definition bmul :: "mat \<Rightarrow> mat \<Rightarrow> mat" where
  \<comment> \<open>\<open>a * c\<close> for \<open>a\<close> of shape \<open>[F, C]\<close> and \<open>c\<close> of shape \<open>[1, C]\<close>\<close>
  "bmul a c = map (\<lambda>row. map2 (*) row (hd c)) a"

definition bdiv_eps :: "mat \<Rightarrow> mat \<Rightarrow> mat" where
  \<comment> \<open>\<open>a / (c + EPS)\<close> for \<open>a\<close> of shape \<open>[F, C]\<close> and \<open>c\<close> of shape \<open>[1, C]\<close>\<close>
  "bdiv_eps a c = map (\<lambda>row. map2 (\<lambda>v n. v / (n + EPS)) row (hd c)) a"

fun sum0 :: "mat list \<Rightarrow> mat" where
  \<comment> \<open>\<open>torch.sum(t, dim=0)\<close> for \<open>t\<close> of shape \<open>[K, F, C]\<close>\<close>
  "sum0 [] = []"
| "sum0 (m # ms) = foldl madd m ms"

fun tsum0 :: "mat list list \<Rightarrow> mat list" where
  \<comment> \<open>\<open>torch.sum(t, dim=0)\<close> for \<open>t\<close> of shape \<open>[G, S, F, C]\<close>\<close>
  "tsum0 [] = []"
| "tsum0 (t # ts) = foldl (map2 madd) t ts"

definition merge_feat_vec :: "mat list list \<Rightarrow> mat list list \<Rightarrow> mat \<times> mat" where
  \<comment> \<open>\<open>MaskRCNN._merge_feat_vec\<close>\<close>
  "merge_feat_vec box_feat box_cnt =
     (let feat_avg_sum = map2 (map2 bmul) box_feat box_cnt;
          feat_avg_sum = sum0 (tsum0 feat_avg_sum);
          cnt_sum = sum0 (tsum0 box_cnt)
      in (bdiv_eps feat_avg_sum cnt_sum, cnt_sum))"

definition nonzero1 :: "real list \<Rightarrow> nat list" where
  \<comment> \<open>\<open>torch.nonzero(v).squeeze()\<close> for a vector: the positions of its nonzero entries\<close>
  "nonzero1 v = filter (\<lambda>c. v ! c \<noteq> 0) [0..<length v]"

definition select_t :: "mat \<Rightarrow> nat list \<Rightarrow> mat" where
  \<comment> \<open>\<open>m[:, idx].t()\<close>: one row per selected class, holding its column of \<open>m\<close>\<close>
  "select_t m idx = map (\<lambda>c. map (\<lambda>row. row ! c) m) idx"

definition sq_err :: "real list \<Rightarrow> real list \<Rightarrow> real" where
  "sq_err a b = sum_list (map2 (\<lambda>u v. (u - v)\<^sup>2) a b)"

definition criterion :: "mat \<Rightarrow> mat \<Rightarrow> real" where
  \<comment> \<open>\<open>nn.MSELoss()\<close>: the mean of the squared differences over all elements\<close>
  "criterion a b = sum_list (map2 sq_err a b) / real (sum_list (map length a))"

datatype squeezed = Matrix mat | Vector "real list"

definition squeeze :: "mat list \<Rightarrow> squeezed" where
  \<comment> \<open>\<open>t.squeeze()\<close> for \<open>t\<close> of shape \<open>[1, F, C]\<close>: every dimension of size 1 is
      dropped, so the result is the matrix of shape \<open>[F, C]\<close> only if \<open>F > 1\<close> and
      \<open>C > 1\<close>; for \<open>F = 1\<close> it is the vector of shape \<open>[C]\<close>, for \<open>C = 1\<close> the vector
      of shape \<open>[F]\<close>\<close>
  "squeeze t =
     (let m = hd t
      in if length m = 1 then Vector (hd m)
         else if list_all (\<lambda>row. length row = 1) m then Vector (map hd m)
         else Matrix m)"

definition update_buffer :: "meta_state \<Rightarrow> mat \<Rightarrow> mat \<Rightarrow> meta_state \<times> squeezed" where
  \<comment> \<open>the block \<open>update buffer\<close> of \<open>meta_loss\<close> for a non-empty buffer: the new state
      and \<open>final_big_feat\<close>\<close>
  "update_buffer st big_feat' big_cnt' =
     (if length (buffer st) = 1 then
        let feat_sum = map2 madd (map2 bmul (buffer st) (buffer_cnt st))
                                 (map2 bmul [big_feat'] [big_cnt']);
            cnt' = map2 madd (buffer_cnt st) [big_cnt'];
            buf' = map2 bdiv_eps feat_sum cnt'
        in (\<lparr>buffer = buf', buffer_cnt = cnt'\<rparr>, squeeze buf')
      else
        let buf' = (tl (buffer st) @ [last (buffer st)])
                     [length (buffer st) - 1 := big_feat'];
            cnt' = (tl (buffer_cnt st) @ [last (buffer_cnt st)])
                     [length (buffer_cnt st) - 1 := big_cnt']
        in (\<lparr>buffer = buf', buffer_cnt = cnt'\<rparr>,
            Matrix (bdiv_eps (sum0 (map2 bmul buf' cnt')) (sum0 cnt'))))"

definition meta_loss ::
  "meta_state \<Rightarrow> mat list list \<times> mat list list \<times> mat list list \<times> mat list list
     \<Rightarrow> (error \<times> meta_state) + (real \<times> meta_state)" where
  \<comment> \<open>the returned loss and the state the call leaves in \<open>self.buffer\<close> and
      \<open>self.buffer_cnt\<close>; an exception comes with the state written before it was raised.
      \<open>final_big_feat_var[:, _idx]\<close> raises on a tensor of one dimension.\<close>
  "meta_loss st feat_input =
     (case feat_input of (big_feat, big_cnt, small_feat, small_cnt) \<Rightarrow>
        let (final_small_feat, final_small_cnt) = merge_feat_vec small_feat small_cnt;
            (big_feat', big_cnt') = merge_feat_vec big_feat big_cnt
        in if length (buffer st) = 0 then Inl (IndexError, st)
           else
             let (st', final_big_feat) = update_buffer st big_feat' big_cnt';
                 final_small_cnt = final_small_cnt[0 := (hd final_small_cnt)[0 := 0]];
                 idx = nonzero1 (hd final_small_cnt)
             in if idx \<noteq> []
                then (case final_big_feat of
                        Matrix big \<Rightarrow>
                          Inr (criterion (select_t final_small_feat idx) (select_t big idx), st')
                      | Vector v \<Rightarrow> Inl (IndexError, st'))
                else Inr (0, st'))"

definition nonneg :: "mat \<Rightarrow> bool" where
  "nonneg m = list_all (list_all (\<lambda>v. 0 \<le> v)) m"

definition buffer_inv :: "meta_state \<Rightarrow> bool" where
  \<comment> \<open>every count of the buffer is non-negative and there is one count slot per
      feature slot\<close>
  "buffer_inv st =
     (length (buffer st) = length (buffer_cnt st) \<and> list_all nonneg (buffer_cnt st))"

definition column :: "mat \<Rightarrow> nat \<Rightarrow> real list" where
  \<comment> \<open>\<open>m[:, c]\<close>: the feature vector of class \<open>c\<close>\<close>
  "column m c = map (\<lambda>row. row ! c) m"

text \<open>Concrete buffers and inputs for evaluation.\<close>

definition ring_state :: meta_state where
  \<comment> \<open>capacity 2, one feature, two classes\<close>
  "ring_state = \<lparr>buffer = [[[0, 0]], [[0, 2]]], buffer_cnt = [[[0, 0]], [[0, 1]]]\<rparr>"

definition unit_input :: "mat list list \<times> mat list list \<times> mat list list \<times> mat list list" where
  "unit_input = ([[[[0, 1]]]], [[[[0, 1]]]], [[[[0, 0]]]], [[[[0, 0]]]])"

definition fresh_state :: meta_state where
  \<comment> \<open>capacity 1, two features, three classes\<close>
  "fresh_state = \<lparr>buffer = [[[0, 0, 0], [0, 0, 0]]], buffer_cnt = [[[0, 0, 0]]]\<rparr>"

definition small_input :: "mat list list \<times> mat list list \<times> mat list list \<times> mat list list" where
  \<comment> \<open>small objects seen for the background (4 times) and for class 1 (once), none for
      class 2\<close>
  "small_input = ([[[[0, 1, 1], [0, 2, 2]]]], [[[[0, 1, 1]]]],
                  [[[[7, 3, 9], [7, 5, 9]]]], [[[[4, 1, 0]]]])"

section \<open>Facts about the tensor operations\<close>

lemma set_nonzero:
  "set (nonzero t) = {(b, s). b < length t \<and> s < length (t ! b) \<and> t ! b ! s \<noteq> 0}"
  by (auto simp: nonzero_def)

lemma nonzero_empty_iff:
  "nonzero t = [] \<longleftrightarrow> (\<forall>b < length t. \<forall>s < length (t ! b). t ! b ! s = 0)"
proof -
  have "nonzero t = [] \<longleftrightarrow> set (nonzero t) = {}" by simp
  also have "\<dots> \<longleftrightarrow> (\<forall>b < length t. \<forall>s < length (t ! b). t ! b ! s = 0)"
    unfolding set_nonzero by auto
  finally show ?thesis .
qed

lemma length_eq_t [simp]: "length (eq_t t v) = length t"
  by (simp add: eq_t_def)

lemma length_eq_t_row [simp]: "b < length t \<Longrightarrow> length (eq_t t v ! b) = length (t ! b)"
  by (simp add: eq_t_def)

lemma nth_eq_t [simp]:
  "b < length t \<Longrightarrow> s < length (t ! b) \<Longrightarrow> eq_t t v ! b ! s = (if t ! b ! s = v then 1 else 0)"
  by (simp add: eq_t_def)

lemma length_add_t [simp]: "length (add_t a b) = min (length a) (length b)"
  by (simp add: add_t_def)

lemma nth_add_t_row:
  "i < length a \<Longrightarrow> i < length b \<Longrightarrow> add_t a b ! i = map2 (+) (a ! i) (b ! i)"
  by (simp add: add_t_def)

lemma any_t_iff: "any_t t \<longleftrightarrow> nonzero t \<noteq> []"
proof -
  have "any_t t \<longleftrightarrow> (\<exists>r \<in> set t. \<exists>v \<in> set r. v \<noteq> 0)"
    by (simp add: any_t_def list_ex_iff)
  also have "\<dots> \<longleftrightarrow> (\<exists>b < length t. \<exists>s < length (t ! b). t ! b ! s \<noteq> 0)"
    by (metis in_set_conv_nth)
  finally show ?thesis by (simp add: nonzero_empty_iff)
qed

lemma clamp_range: "2 \<le> clamp v 2 5 \<and> clamp v 2 5 \<le> 5"
  by (simp add: clamp_def)


lemma box_level_range: "2 \<le> box_level sh b \<and> box_level sh b \<le> 5"
  using clamp_range by (auto simp: box_level_def Let_def split: prod.splits)

section \<open>Claims about the level assignment\<close>

text \<open>
  C5. \<open>Dev._find_big_box\<close> flags exactly these ROIs as big: at level 2 the ROIs whose
  assigned level is 4 or 5; at level 3 the ROIs whose assigned level is 5; at levels 4
  and 5 no ROI, for every level assignment the router produces (entries between 2 and 5).
  The flagged ROIs are the positions \<open>torch.nonzero\<close> returns for the flag tensor.
\<close>

theorem find_big_box_flags:
  "set (nonzero (find_big_box 2 roi_level)) =
     {(b, s). b < length roi_level \<and> s < length (roi_level ! b) \<and>
              (roi_level ! b ! s = 4 \<or> roi_level ! b ! s = 5)}
   \<and> set (nonzero (find_big_box 3 roi_level)) =
     {(b, s). b < length roi_level \<and> s < length (roi_level ! b) \<and> roi_level ! b ! s = 5}
   \<and> ((\<forall>r \<in> set roi_level. \<forall>l \<in> set r. 2 \<le> l \<and> l \<le> 5) \<longrightarrow>
        nonzero (find_big_box 4 roi_level) = [] \<and> nonzero (find_big_box 5 roi_level) = [])"
proof (intro conjI impI)
  show "set (nonzero (find_big_box 2 roi_level)) =
     {(b, s). b < length roi_level \<and> s < length (roi_level ! b) \<and>
              (roi_level ! b ! s = 4 \<or> roi_level ! b ! s = 5)}"
    by (auto simp: set_nonzero find_big_box_def nth_add_t_row split: if_splits)
  show "set (nonzero (find_big_box 3 roi_level)) =
     {(b, s). b < length roi_level \<and> s < length (roi_level ! b) \<and> roi_level ! b ! s = 5}"
    by (auto simp: set_nonzero find_big_box_def split: if_splits)
next
  assume rng: "\<forall>r \<in> set roi_level. \<forall>l \<in> set r. 2 \<le> l \<and> l \<le> 5"
  have ne: "roi_level ! b ! s \<noteq> - 1" if "b < length roi_level" "s < length (roi_level ! b)" for b s
  proof -
    have "roi_level ! b ! s \<in> set (roi_level ! b)" "roi_level ! b \<in> set roi_level"
      using that by simp_all
    with rng have "2 \<le> roi_level ! b ! s" by blast
    then show ?thesis by simp
  qed
  show "nonzero (find_big_box 4 roi_level) = []"
    by (simp add: nonzero_empty_iff find_big_box_def ne)
  show "nonzero (find_big_box 5 roi_level) = []"
    by (simp add: nonzero_empty_iff find_big_box_def ne)
qed

theorem find_big_box_flags_witness:
  "set (nonzero (find_big_box 2 [[2, 4, 5, 3]])) = {(0, 1), (0, 2)}
   \<and> set (nonzero (find_big_box 3 [[2, 4, 5, 3]])) = {(0, 2)}
   \<and> nonzero (find_big_box 4 [[2, 4, 5, 3]]) = []
   \<and> nonzero (find_big_box 5 [[2, 4, 5, 3]]) = []"
proof -
  have rng: "\<forall>r \<in> set [[2, 4, 5, 3 :: int]]. \<forall>l \<in> set r. 2 \<le> l \<and> l \<le> 5"
    by simp
  have two: "{(b, s). b < length [[2, 4, 5, 3 :: int]] \<and> s < length ([[2, 4, 5, 3 :: int]] ! b) \<and>
              ([[2, 4, 5, 3 :: int]] ! b ! s = 4 \<or> [[2, 4, 5, 3 :: int]] ! b ! s = 5)}
             = {(0, 1), (0, 2)}"
    by (auto simp: less_Suc_eq numeral_eq_Suc)
  have three: "{(b, s). b < length [[2, 4, 5, 3 :: int]] \<and> s < length ([[2, 4, 5, 3 :: int]] ! b) \<and>
              [[2, 4, 5, 3 :: int]] ! b ! s = 5} = {(0, 2)}"
    by (auto simp: less_Suc_eq numeral_eq_Suc)
  show ?thesis
    using find_big_box_flags [of "[[2, 4, 5, 3]]"] rng unfolding two three by blast
qed

section \<open>The level formula\<close>

lemma log2_log: "log2 x = log 2 x"
  by (simp add: log2_def log_def)




lemma sqrt_224: "sqrt 50176 = 224"
  by (rule real_sqrt_unique) simp_all





section \<open>The pooling loop\<close>




lemma rois_at_append [simp]: "r < length st \<Longrightarrow> rois_at (st @ t) r = rois_at st r"
  by (simp add: rois_at_def nth_append)

lemma boxes_at_new [simp]: "boxes_at (st @ [T2 bs]) (length st) = bs"
  by (simp add: boxes_at_def)

lemma mul_inplace_new [simp]:
  "mul_inplace (st @ [T2 bs]) (length st) f = st @ [T2 (map (scale_box f) bs)]"
  by (simp add: mul_inplace_def scale_tensor_def)

lemma big_part_frame:
  "prefix st (final_store (big_part dev fm st r gt big_ix))"
  by (auto simp: big_part_def final_store_def alloc_def Let_def split: option.splits sum.splits)

lemma level_body_frame:
  "prefix st (final_store (level_body dev x r gt rl i level (st, ac)))"
proof (cases "any_t (eq_t rl level)")
  case False
  then show ?thesis by (simp add: level_body_def final_store_def)
next
  case any: True
  show ?thesis
  proof (cases "length x \<le> i")
    case True
    with any show ?thesis by (simp add: level_body_def final_store_def)
  next
    case False
    have bp: "prefix st (final_store (big_part dev (x ! i) st r gt (find_big_box level rl)))"
      by (rule big_part_frame)
    show ?thesis
    proof (cases "big_part dev (x ! i) st r gt (find_big_box level rl)")
      case (Inl e)
      obtain er st1 where e: "e = (er, st1)" by (cases e)
      from bp Inl e have "prefix st st1" by (simp add: final_store_def)
      then show ?thesis
        using any False Inl e by (simp add: level_body_def final_store_def)
    next
      case (Inr res)
      obtain st1 bg bo where res: "res = (st1, bg, bo)" by (cases res)
      from bp Inr res have p: "prefix st st1" by (simp add: final_store_def)
      have "\<exists>t. final_store (level_body dev x r gt rl i level (st, ac)) = st1 @ [t]"
        using any False Inr res
        by (simp add: level_body_def final_store_def alloc_def Let_def mul_inplace_def
              split: option.splits sum.splits)
      then show ?thesis using p by (auto simp: prefix_def)
    qed
  qed
qed

lemma level_loop_frame:
  "prefix st (final_store (level_loop dev x r gt rl ls (st, ac)))"
proof (induction ls arbitrary: st ac)
  case Nil
  then show ?case by (simp add: final_store_def)
next
  case (Cons l ls)
  obtain i level where l: "l = (i, level)" by (cases l)
  show ?case
  proof (cases "level_body dev x r gt rl i level (st, ac)")
    case (Inl e)
    with level_body_frame [of st dev x r gt rl i level ac] show ?thesis
      by (simp add: l)
  next
    case (Inr sa)
    obtain st1 ac1 where sa: "sa = (st1, ac1)" by (cases sa)
    from Inr sa level_body_frame [of st dev x r gt rl i level ac]
    have "prefix st st1" by (simp add: final_store_def)
    moreover have "prefix st1 (final_store (level_loop dev x r gt rl ls (st1, ac1)))"
      by (rule Cons.IH)
    ultimately show ?thesis using Inr sa by (auto simp: l intro: prefix_order.trans)
  qed
qed

lemma forward_frame:
  fixes dev :: "('fm, 'c::zero, 'd) Dev"
  shows "prefix st (final_store (forward dev x st r gt))"
proof -
  let ?rl = "roi_level_of (image_shape dev) (rois_at st r)"
  let ?a0 = "\<lparr>pooled = [], mask = [], box_to_level = [], feat_out = []\<rparr> :: ('c, 'd) acc"
  have "prefix st (final_store (level_loop dev x r gt ?rl pyramid_levels (st, ?a0)))"
    by (rule level_loop_frame)
  then show ?thesis
    by (auto simp: forward_def final_store_def Let_def split: sum.splits prod.splits)
qed

lemma prefix_nth: "prefix st st' \<Longrightarrow> r < length st \<Longrightarrow> st' ! r = st ! r"
  by (auto simp: prefix_def nth_append)

lemma level_body_skip:
  "\<not> any_t (eq_t rl level) \<Longrightarrow> level_body dev x r gt rl i level (st, ac) = Inr (st, ac)"
  by (simp add: level_body_def)

lemma level_body_None:
  assumes "any_t (eq_t rl level)" "i < length x"
  shows "\<exists>st'. level_body dev x r None rl i level (st, ac) = Inl (TypeError, st')"
  using assms
  by (auto simp: level_body_def big_part_def alloc_def Let_def split: sum.splits prod.splits)

lemma level_loop_None:
  assumes "\<exists>p \<in> set ls. any_t (eq_t rl (snd p))" "\<forall>p \<in> set ls. fst p < length x"
  shows "\<exists>st'. level_loop dev x r None rl ls (st, ac) = Inl (TypeError, st')"
  using assms
proof (induction ls arbitrary: st ac)
  case Nil
  then show ?case by simp
next
  case (Cons l ls)
  obtain i level where l: "l = (i, level)" by (cases l)
  show ?case
  proof (cases "any_t (eq_t rl level)")
    case True
    with Cons.prems l have "\<exists>st'. level_body dev x r None rl i level (st, ac) = Inl (TypeError, st')"
      by (intro level_body_None) auto
    then show ?thesis by (auto simp: l)
  next
    case False
    with Cons.prems l have "\<exists>p \<in> set ls. any_t (eq_t rl (snd p))" by auto
    moreover from Cons.prems have "\<forall>p \<in> set ls. fst p < length x" by simp
    ultimately have "\<exists>st'. level_loop dev x r None rl ls (st, ac) = Inl (TypeError, st')"
      by (rule Cons.IH)
    with False show ?thesis by (simp add: l level_body_skip)
  qed
qed

lemma any_level:
  assumes "b < length rois" "s < length (rois ! b)"
  shows "\<exists>p \<in> set pyramid_levels. any_t (eq_t (roi_level_of sh rois) (snd p))"
proof -
  let ?rl = "roi_level_of sh rois"
  let ?l = "box_level sh (rois ! b ! s)"
  have rl: "b < length ?rl" "s < length (?rl ! b)" "?rl ! b ! s = ?l"
    using assms by (simp_all add: roi_level_of_def)
  then have "(b, s) \<in> set (nonzero (eq_t ?rl ?l))"
    by (simp add: set_nonzero)
  then have "any_t (eq_t ?rl ?l)" by (auto simp: any_t_iff)
  moreover have "?l = 2 \<or> ?l = 3 \<or> ?l = 4 \<or> ?l = 5"
    using box_level_range [of sh "rois ! b ! s"] by arith
  ultimately show ?thesis by (auto simp: pyramid_levels_def)
qed

















lemma level_body_None_fails:
  assumes "any_t (eq_t rl level)"
  shows "\<exists>e st'. level_body dev x r None rl i level (st, ac) = Inl (e, st')"
  using assms
  by (auto simp: level_body_def big_part_def alloc_def Let_def split: sum.splits prod.splits)

lemma level_loop_None_fails:
  assumes "\<exists>p \<in> set ls. any_t (eq_t rl (snd p))"
  shows "\<exists>e st'. level_loop dev x r None rl ls (st, ac) = Inl (e, st')"
  using assms
proof (induction ls arbitrary: st ac)
  case Nil
  then show ?case by simp
next
  case (Cons l ls)
  obtain i level where l: "l = (i, level)" by (cases l)
  show ?case
  proof (cases "any_t (eq_t rl level)")
    case True
    then have "\<exists>e st'. level_body dev x r None rl i level (st, ac) = Inl (e, st')"
      by (rule level_body_None_fails)
    then show ?thesis by (auto simp: l)
  next
    case False
    with Cons.prems l have "\<exists>p \<in> set ls. any_t (eq_t rl (snd p))" by auto
    then have "\<exists>e st'. level_loop dev x r None rl ls (st, ac) = Inl (e, st')"
      by (rule Cons.IH)
    with False show ?thesis by (simp add: l level_body_skip)
  qed
qed

section \<open>Evaluation at concrete inputs\<close>

lemma nonzero_single_1: "nonzero [[1]] = [(0, 0)]"
  by (simp add: nonzero_def)

lemma nonzero_single_0: "nonzero [[0]] = []"
  by (simp add: nonzero_def)

lemma any_single_1: "any_t [[1]]"
  by (simp add: any_t_def)

lemma any_single_0: "\<not> any_t [[0]]"
  by (simp add: any_t_def)

lemma sqrt_64: "sqrt 64 = 8"
  by (rule real_sqrt_unique) simp_all

lemma log2_eighth: "log2 (1 / 8) = - 3"
proof -
  have "log 2 ((2::real) ^ 3) = real 3"
    by (rule log_pow_cancel) simp_all
  then have l8: "log 2 8 = 3" by simp
  have "log 2 (1 / 8) = log 2 1 - log 2 8"
    by (subst log_divide) simp_all
  then show ?thesis by (simp add: log2_log l8)
qed

lemma box_level_small: "box_level (224, 224) (0, 0, 1 / 8, 1 / 8) = 2"
  by (simp add: box_level_def sqrt_224 sqrt_64 real_sqrt_divide log2_eighth clamp_def)

lemmas forward_eval =
  forward_def const_dev_def roi_level_of_def rois_at_def
  pyramid_levels_def level_body_def big_part_def eq_t_def find_big_box_def add_t_def
  nonzero_single_1 nonzero_single_0 any_single_1 any_single_0 alloc_def index_rois_def
  index_gt_def crops_def mul_inplace_def scale_tensor_def scale_box_def boxes_at_def
  reshape_result_def rois_size_def Let_def

lemma forward_small_box:
  "forward const_dev [1, 1, 1, 1] [T3 [[(0, 0, 1 / 8, 1 / 8)]]] 0 (Some [[3]])
     = Inr ([T3 [[(0, 0, 1 / 8, 1 / 8)]], T2 [(0, 0, 1 / 4, 1 / 4)]], [1], [1],
            Some [([], None, [3], ())])"
  by (simp add: forward_eval box_level_small)

section \<open>Claims about the pooling in dynamic mode\<close>




text \<open>
  C4. In dynamic mode, \<open>Dev.forward\<close> called with \<open>roi_cls_gt = None\<close> fails for every
  input with at least one ROI (every ROI is routed to a level): it raises, and with the
  four feature maps the error is the \<open>TypeError\<close> of indexing \<open>None\<close>.
\<close>

theorem forward_without_gt_fails:
  fixes dev :: "('fm, 'c::zero, 'd) Dev"
  shows "use_dev dev \<and> r < length st \<and> b < length (rois_at st r) \<and> s < length (rois_at st r ! b)
   \<longrightarrow> (\<exists>e st'. forward dev x st r None = Inl (e, st'))
       \<and> (4 \<le> length x \<longrightarrow> (\<exists>st'. forward dev x st r None = Inl (TypeError, st')))"
proof (intro impI, elim conjE)
  assume a: "use_dev dev" "r < length st" "b < length (rois_at st r)"
    "s < length (rois_at st r ! b)"
  let ?rl = "roi_level_of (image_shape dev) (rois_at st r)"
  let ?a0 = "\<lparr>pooled = [], mask = [], box_to_level = [], feat_out = []\<rparr> :: ('c, 'd) acc"
  have lv: "\<exists>p \<in> set pyramid_levels. any_t (eq_t ?rl (snd p))"
    using a by (intro any_level)
  then have "\<exists>e st'. level_loop dev x r None ?rl pyramid_levels (st, ?a0) = Inl (e, st')"
    by (rule level_loop_None_fails)
  then have one: "\<exists>e st'. forward dev x st r None = Inl (e, st')"
    using a by (auto simp: forward_def Let_def)
  have two: "\<exists>st'. forward dev x st r None = Inl (TypeError, st')" if "4 \<le> length x"
  proof -
    have "\<forall>p \<in> set pyramid_levels. fst p < length x"
      using that by (auto simp: pyramid_levels_def)
    with lv have "\<exists>st'. level_loop dev x r None ?rl pyramid_levels (st, ?a0) = Inl (TypeError, st')"
      by (rule level_loop_None)
    then show ?thesis using a by (auto simp: forward_def Let_def)
  qed
  from one two
  show "(\<exists>e st'. forward dev x st r None = Inl (e, st'))
       \<and> (4 \<le> length x \<longrightarrow> (\<exists>st'. forward dev x st r None = Inl (TypeError, st')))"
    by blast
qed

theorem forward_without_gt_fails_witness:
  "(\<exists>e st'. forward const_dev [1, 1, 1, 1] [T3 [[(0, 0, 0, 0)]]] 0 None = Inl (e, st'))
   \<and> (\<exists>st'. forward const_dev [1, 1, 1, 1] [T3 [[(0, 0, 0, 0)]]] 0 None = Inl (TypeError, st'))"
proof -
  have h: "use_dev const_dev \<and> (0::nat) < length [T3 [[(0, 0, 0, 0)]]]
     \<and> (0::nat) < length (rois_at [T3 [[(0, 0, 0, 0)]]] 0)
     \<and> (0::nat) < length (rois_at [T3 [[(0, 0, 0, 0)]]] 0 ! 0)"
    by (simp add: const_dev_def rois_at_def)
  have x: "4 \<le> length [1, 1, 1, 1 :: real]" by simp
  from forward_without_gt_fails [of const_dev 0 "[T3 [[(0, 0, 0, 0)]]]" 0 0 "[1, 1, 1, 1]"] h x
  show ?thesis by blast
qed

text \<open>
  C10. \<open>Dev.forward\<close> does not mutate its \<open>rois\<close> argument: whether the call returns or
  raises, the store holds at the address of \<open>rois\<close> the tensor it held before. The
  in-place multiplication by the upsample factor acts on the tensor that the advanced
  indexing allocated. (In fixed mode the external \<open>pyramid_roi_align\<close> is taken to read
  its arguments only.)
\<close>

theorem forward_keeps_rois:
  "r < length st \<longrightarrow> final_store (forward dev x st r roi_cls_gt) ! r = st ! r"
  using forward_frame [of st dev x r roi_cls_gt] by (simp add: prefix_nth)

theorem forward_keeps_rois_witness:
  "final_store (forward const_dev [1, 1, 1, 1] [T3 [[(0, 0, 1 / 8, 1 / 8)]]] 0 (Some [[3]])) ! 0
     = T3 [[(0, 0, 1 / 8, 1 / 8)]]
   \<and> final_store (forward const_dev [1, 1, 1, 1] [T3 [[(0, 0, 1 / 8, 1 / 8)]]] 0 (Some [[3]])) ! 1
     = T2 [(0, 0, 1 / 4, 1 / 4)]"
proof -
  have h: "(0::nat) < length [T3 [[(0, 0, 1 / 8, 1 / 8)]]]" by simp
  from forward_keeps_rois [of 0 "[T3 [[(0, 0, 1 / 8, 1 / 8)]]]" const_dev "[1, 1, 1, 1]"
         "Some [[3]]"] h
  have "final_store (forward const_dev [1, 1, 1, 1] [T3 [[(0, 0, 1 / 8, 1 / 8)]]] 0 (Some [[3]])) ! 0
     = T3 [[(0, 0, 1 / 8, 1 / 8)]]" by simp
  then show ?thesis by (simp add: forward_small_box final_store_def)
qed

section \<open>The running buffer of meta_loss\<close>

lemma nonneg_iff: "nonneg m \<longleftrightarrow> (\<forall>row \<in> set m. \<forall>v \<in> set row. 0 \<le> v)"
  by (simp add: nonneg_def list_all_iff)

lemma nonneg_madd: "nonneg a \<Longrightarrow> nonneg b \<Longrightarrow> nonneg (madd a b)"
  unfolding nonneg_iff madd_def vadd_def
  by (fastforce dest!: set_zip_leftD set_zip_rightD elim!: in_set_zipE)

lemma nonneg_foldl:
  "nonneg m \<Longrightarrow> \<forall>x \<in> set ms. nonneg x \<Longrightarrow> nonneg (foldl madd m ms)"
  by (induction ms arbitrary: m) (auto simp: nonneg_madd)

lemma nonneg_sum0: "\<forall>x \<in> set ms. nonneg x \<Longrightarrow> nonneg (sum0 ms)"
proof (cases ms)
  case Nil
  then show ?thesis by (simp add: nonneg_def)
next
  case (Cons m ms')
  assume "\<forall>x \<in> set ms. nonneg x"
  with Cons have "nonneg m" "\<forall>x \<in> set ms'. nonneg x" by simp_all
  then have "nonneg (foldl madd m ms')" by (rule nonneg_foldl)
  with Cons show ?thesis by simp
qed

lemma nonneg_map2_madd:
  "\<forall>x \<in> set t. nonneg x \<Longrightarrow> \<forall>x \<in> set u. nonneg x \<Longrightarrow> \<forall>x \<in> set (map2 madd t u). nonneg x"
  by (auto simp: nonneg_madd elim!: in_set_zipE)

lemma nonneg_foldl_t:
  "\<forall>x \<in> set t. nonneg x \<Longrightarrow> \<forall>u \<in> set ts. \<forall>x \<in> set u. nonneg x
     \<Longrightarrow> \<forall>x \<in> set (foldl (map2 madd) t ts). nonneg x"
proof (induction ts arbitrary: t)
  case Nil
  then show ?case by simp
next
  case (Cons u ts)
  have h: "\<forall>x \<in> set (map2 madd t u). nonneg x"
    using Cons.prems by (intro nonneg_map2_madd) auto
  have r: "\<forall>u \<in> set ts. \<forall>x \<in> set u. nonneg x" using Cons.prems by simp
  from Cons.IH [OF h r] show ?case by simp
qed

lemma nonneg_tsum0:
  assumes "\<forall>u \<in> set ts. \<forall>x \<in> set u. nonneg x"
  shows "\<forall>x \<in> set (tsum0 ts). nonneg x"
proof (cases ts)
  case Nil
  then show ?thesis by simp
next
  case (Cons t ts')
  with assms have "\<forall>x \<in> set t. nonneg x" "\<forall>u \<in> set ts'. \<forall>x \<in> set u. nonneg x"
    by simp_all
  then have "\<forall>x \<in> set (foldl (map2 madd) t ts'). nonneg x" by (rule nonneg_foldl_t)
  with Cons show ?thesis by simp
qed

lemma nonneg_merge_cnt:
  assumes "list_all (list_all nonneg) box_cnt"
  shows "nonneg (snd (merge_feat_vec box_feat box_cnt))"
proof -
  have "\<forall>u \<in> set box_cnt. \<forall>x \<in> set u. nonneg x"
    using assms by (simp add: list_all_iff)
  then have "nonneg (sum0 (tsum0 box_cnt))"
    by (intro nonneg_sum0 nonneg_tsum0)
  then show ?thesis by (simp add: merge_feat_vec_def Let_def)
qed

lemma ring_shift:
  "b \<noteq> [] \<Longrightarrow> (tl b @ [last b])[length b - 1 := v] = tl b @ [v]"
  by (cases b) (simp_all add: list_update_append)

lemma nonzero1_background:
  "nonzero1 (cnt[0 := 0]) = filter (\<lambda>c. c \<noteq> 0 \<and> cnt ! c \<noteq> 0) [0..<length cnt]"
proof -
  have "(cnt[0 := 0]) ! c \<noteq> 0 \<longleftrightarrow> c \<noteq> 0 \<and> cnt ! c \<noteq> 0" if "c < length cnt" for c
    using that by (cases c) simp_all
  then have "filter (\<lambda>c. (cnt[0 := 0]) ! c \<noteq> 0) [0..<length cnt]
               = filter (\<lambda>c. c \<noteq> 0 \<and> cnt ! c \<noteq> 0) [0..<length cnt]"
    by (intro filter_cong) auto
  then show ?thesis by (simp add: nonzero1_def)
qed

lemma map2_select:
  "map2 sq_err (select_t a idx) (select_t b idx)
     = map (\<lambda>c. sq_err (column a c) (column b c)) idx"
  by (induction idx) (simp_all add: select_t_def column_def)

lemma sum_lengths_select:
  "sum_list (map length (select_t a idx)) = length idx * length a"
  by (induction idx) (simp_all add: select_t_def)

lemma sq_err_empty: "sq_err [] b = 0"
  by (simp add: sq_err_def)

lemma criterion_select:
  "criterion (select_t a idx) (select_t b idx) * real (length idx * length a)
     = sum_list (map (\<lambda>c. sq_err (column a c) (column b c)) idx)"
proof (cases "length idx * length a = 0")
  case False
  then show ?thesis
    by (simp add: criterion_def map2_select sum_lengths_select)
next
  case True
  then have "idx = [] \<or> a = []" by auto
  then have "sum_list (map (\<lambda>c. sq_err (column a c) (column b c)) idx) = 0"
    by (auto simp: sq_err_empty column_def)
  with True show ?thesis by simp
qed

lemma sum_selected:
  "sum_list (map (\<lambda>c. sq_err (column a c) (column b c))
               (filter (\<lambda>c. c \<noteq> 0 \<and> cnt ! c \<noteq> 0) [0..<length cnt]))
     = sum_list (map (\<lambda>c. if c = 0 \<or> cnt ! c = 0 then 0 else sq_err (column a c) (column b c))
                  [0..<length cnt])"
  unfolding sum_list_map_filter'
  by (rule arg_cong [where f = sum_list], rule map_cong) auto

lemma update_buffer_ring:
  assumes "length (buffer st) \<noteq> 1"
  shows "\<exists>big. snd (update_buffer st bf bc) = Matrix big"
  using assms by (simp add: update_buffer_def Let_def)

lemma meta_loss_cases:
  assumes "buffer st \<noteq> []"
    and "merge_feat_vec big_feat big_cnt = (bf, bc)"
    and "update_buffer st bf bc = (st', fb)"
  shows "(\<exists>loss. meta_loss st (big_feat, big_cnt, small_feat, small_cnt) = Inr (loss, st'))
       \<or> (meta_loss st (big_feat, big_cnt, small_feat, small_cnt) = Inl (IndexError, st')
            \<and> (\<exists>v. fb = Vector v))"
  using assms by (auto simp: meta_loss_def Let_def split: prod.splits squeezed.splits)

lemma merge_unit: "merge_feat_vec [[[[0, 1]]]] [[[[0, 1]]]] = ([[0, 1 / (1 + EPS)]], [[0, 1]])"
  by (simp add: merge_feat_vec_def bmul_def bdiv_eps_def Let_def)

lemma merge_small:
  "merge_feat_vec [[[[7, 3, 9], [7, 5, 9]]]] [[[[4, 1, 0]]]]
     = ([[28 / (4 + EPS), 3 / (1 + EPS), 0], [28 / (4 + EPS), 5 / (1 + EPS), 0]], [[4, 1, 0]])"
  by (simp add: merge_feat_vec_def bmul_def bdiv_eps_def Let_def)

lemma merge_big:
  "merge_feat_vec [[[[0, 1, 1], [0, 2, 2]]]] [[[[0, 1, 1]]]]
     = ([[0, 1 / (1 + EPS), 1 / (1 + EPS)], [0, 2 / (1 + EPS), 2 / (1 + EPS)]], [[0, 1, 1]])"
  by (simp add: merge_feat_vec_def bmul_def bdiv_eps_def Let_def)

lemma update_fresh:
  "update_buffer fresh_state
       [[0, 1 / (1 + EPS), 1 / (1 + EPS)], [0, 2 / (1 + EPS), 2 / (1 + EPS)]] [[0, 1, 1]]
     = (\<lparr>buffer = [[[0, 1 / (1 + EPS) / (1 + EPS), 1 / (1 + EPS) / (1 + EPS)],
                     [0, 2 / (1 + EPS) / (1 + EPS), 2 / (1 + EPS) / (1 + EPS)]]],
         buffer_cnt = [[[0, 1, 1]]]\<rparr>,
        Matrix [[0, 1 / (1 + EPS) / (1 + EPS), 1 / (1 + EPS) / (1 + EPS)],
                [0, 2 / (1 + EPS) / (1 + EPS), 2 / (1 + EPS) / (1 + EPS)]])"
  by (simp add: update_buffer_def fresh_state_def squeeze_def madd_def vadd_def bmul_def
        bdiv_eps_def Let_def)

section \<open>Claims about meta_loss\<close>

text \<open>
  C9. Every call of \<open>meta_loss\<close> on a non-empty buffer, given non-negative big-object
  counts as input, leaves a buffer in which every count is non-negative and there is one
  count slot per feature slot. With capacity 1 the single count slot accumulates the
  step's merged count; otherwise the pairs of feature slot and count slot are shifted
  together by one position and the step's merged pair is appended, so a count stays with
  its feature slot. The call returns a loss, or, only in the capacity-1 branch (where
  \<open>squeeze\<close> can drop a dimension of the big-object average), raises after the buffer is
  written; the invariant holds of the buffer in both cases.
\<close>

theorem meta_loss_preserves_counts:
  "buffer_inv st \<and> buffer st \<noteq> [] \<and> list_all (list_all nonneg) big_cnt
   \<longrightarrow> (\<exists>st'. ((\<exists>loss. meta_loss st (big_feat, big_cnt, small_feat, small_cnt) = Inr (loss, st'))
               \<or> (meta_loss st (big_feat, big_cnt, small_feat, small_cnt) = Inl (IndexError, st')
                    \<and> length (buffer st) = 1))
          \<and> buffer_inv st' \<and> length (buffer st') = length (buffer st)
          \<and> (length (buffer st) = 1 \<longrightarrow>
                buffer_cnt st' = [madd (hd (buffer_cnt st)) (snd (merge_feat_vec big_feat big_cnt))])
          \<and> (length (buffer st) \<noteq> 1 \<longrightarrow>
                zip (buffer st') (buffer_cnt st')
                  = tl (zip (buffer st) (buffer_cnt st)) @ [merge_feat_vec big_feat big_cnt]))"
proof (intro impI, elim conjE)
  assume inv: "buffer_inv st" and ne: "buffer st \<noteq> []"
    and nn: "list_all (list_all nonneg) big_cnt"
  let ?inp = "(big_feat, big_cnt, small_feat, small_cnt)"
  obtain bf bc where m: "merge_feat_vec big_feat big_cnt = (bf, bc)"
    by (cases "merge_feat_vec big_feat big_cnt")
  obtain st' fb where u: "update_buffer st bf bc = (st', fb)"
    by (cases "update_buffer st bf bc")
  from nonneg_merge_cnt [OF nn, of big_feat] m have bcn: "nonneg bc" by simp
  from inv have len: "length (buffer_cnt st) = length (buffer st)"
    and cn: "list_all nonneg (buffer_cnt st)" by (simp_all add: buffer_inv_def)
  from ne len have cne: "buffer_cnt st \<noteq> []" by auto
  have res: "(\<exists>loss. meta_loss st ?inp = Inr (loss, st'))
       \<or> (meta_loss st ?inp = Inl (IndexError, st') \<and> length (buffer st) = 1)"
  proof -
    from meta_loss_cases [OF ne m u, of small_feat small_cnt]
    show ?thesis
    proof
      assume "\<exists>loss. meta_loss st ?inp = Inr (loss, st')"
      then show ?thesis by (rule disjI1)
    next
      assume a: "meta_loss st ?inp = Inl (IndexError, st') \<and> (\<exists>v. fb = Vector v)"
      have "length (buffer st) = 1"
      proof (rule ccontr)
        assume "length (buffer st) \<noteq> 1"
        from update_buffer_ring [OF this, of bf bc] u a show False by auto
      qed
      with a show ?thesis by simp
    qed
  qed
  have st: "buffer_inv st' \<and> length (buffer st') = length (buffer st)
          \<and> (length (buffer st) = 1 \<longrightarrow> buffer_cnt st' = [madd (hd (buffer_cnt st)) bc])
          \<and> (length (buffer st) \<noteq> 1 \<longrightarrow>
                zip (buffer st') (buffer_cnt st')
                  = tl (zip (buffer st) (buffer_cnt st)) @ [(bf, bc)])"
  proof (cases "length (buffer st) = 1")
    case True
    then obtain b where b: "buffer st = [b]" by (cases "buffer st") auto
    from True len obtain c where c: "buffer_cnt st = [c]" by (cases "buffer_cnt st") auto
    from cn c have "nonneg c" by simp
    then have "nonneg (madd c bc)" using bcn by (rule nonneg_madd)
    moreover have "st' = \<lparr>buffer = [bdiv_eps (madd (bmul b c) (bmul bf bc)) (madd c bc)],
                          buffer_cnt = [madd c bc]\<rparr>"
      using u b c by (simp add: update_buffer_def Let_def)
    ultimately show ?thesis
      using b c by (simp add: buffer_inv_def)
  next
    case False
    let ?buf = "tl (buffer st) @ [bf]" and ?cnt = "tl (buffer_cnt st) @ [bc]"
    have "list_all nonneg (tl (buffer_cnt st))"
      using cn by (cases "buffer_cnt st") simp_all
    then have cn': "list_all nonneg ?cnt" using bcn by simp
    have l: "length ?buf = length ?cnt" "length ?buf = length (buffer st)"
      using len ne by simp_all
    have z: "zip ?buf ?cnt = tl (zip (buffer st) (buffer_cnt st)) @ [(bf, bc)]"
      using len by (cases "buffer st"; cases "buffer_cnt st") simp_all
    have rb: "(tl (buffer st) @ [last (buffer st)])[length (buffer st) - 1 := bf] = ?buf"
      by (rule ring_shift [OF ne])
    have rc: "(tl (buffer_cnt st) @ [last (buffer_cnt st)])[length (buffer_cnt st) - 1 := bc] = ?cnt"
      by (rule ring_shift [OF cne])
    have "fst (update_buffer st bf bc) = \<lparr>buffer = ?buf, buffer_cnt = ?cnt\<rparr>"
      using False rb rc by (simp add: update_buffer_def Let_def)
    with u have s: "st' = \<lparr>buffer = ?buf, buffer_cnt = ?cnt\<rparr>" by simp
    have "buffer_inv \<lparr>buffer = ?buf, buffer_cnt = ?cnt\<rparr>"
      using cn' l by (simp add: buffer_inv_def)
    then show ?thesis
      using False l z unfolding s by simp
  qed
  show "\<exists>st'. ((\<exists>loss. meta_loss st ?inp = Inr (loss, st'))
               \<or> (meta_loss st ?inp = Inl (IndexError, st') \<and> length (buffer st) = 1))
          \<and> buffer_inv st' \<and> length (buffer st') = length (buffer st)
          \<and> (length (buffer st) = 1 \<longrightarrow>
                buffer_cnt st' = [madd (hd (buffer_cnt st)) (snd (merge_feat_vec big_feat big_cnt))])
          \<and> (length (buffer st) \<noteq> 1 \<longrightarrow>
                zip (buffer st') (buffer_cnt st')
                  = tl (zip (buffer st) (buffer_cnt st)) @ [merge_feat_vec big_feat big_cnt])"
    unfolding m snd_conv using res st by (intro exI [of _ st']) blast
qed

theorem meta_loss_preserves_counts_witness:
  "\<exists>loss st'. meta_loss ring_state unit_input = Inr (loss, st')
      \<and> buffer_inv st'
      \<and> zip (buffer st') (buffer_cnt st')
           = [([[0, 2]], [[0, 1]]), ([[0, 1 / (1 + EPS)]], [[0, 1]])]"
proof -
  have h: "buffer_inv ring_state \<and> buffer ring_state \<noteq> []
     \<and> list_all (list_all nonneg) [[[[0, 1]]]]"
    by (simp add: ring_state_def buffer_inv_def nonneg_def)
  have l: "length (buffer ring_state) \<noteq> 1" by (simp add: ring_state_def)
  have z: "tl (zip (buffer ring_state) (buffer_cnt ring_state))
             @ [merge_feat_vec [[[[0, 1]]]] [[[[0, 1]]]]]
           = [([[0, 2]], [[0, 1]]), ([[0, 1 / (1 + EPS)]], [[0, 1]])]"
    by (simp add: ring_state_def merge_unit)
  from meta_loss_preserves_counts [where st = ring_state and big_cnt = "[[[[0, 1]]]]"
      and big_feat = "[[[[0, 1]]]]" and small_feat = "[[[[0, 0]]]]" and small_cnt = "[[[[0, 0]]]]"]
    h l
  show ?thesis unfolding z [symmetric] unit_input_def by blast
qed

text \<open>
  C6. In every call of \<open>meta_loss\<close> (on a non-empty buffer, the merged small-object
  count being one row) the classes compared are those other than the background class 0
  whose small-object count of this step is not zero: the count of class 0 is zeroed
  before the selection, whatever it was. When no class is selected the call returns the
  loss 0 and does not raise. When a class is selected and the big-object average is a
  matrix, the call returns a loss, and the loss times the number of compared elements is
  the sum over all classes of the squared differences between the small-object and the
  big-object feature vector of the class, with 0 in place of the term of the background
  class and of every class whose small-object count is zero. The big-object average is a
  matrix whenever the capacity is not 1; with capacity 1 and one feature row, \<open>squeeze\<close>
  makes it a vector and the selection of its columns raises.
\<close>

theorem meta_loss_small_classes:
  "buffer st \<noteq> [] \<and> snd (merge_feat_vec small_feat small_cnt) \<noteq> []
   \<longrightarrow> (let small = fst (merge_feat_vec small_feat small_cnt);
            cnt = hd (snd (merge_feat_vec small_feat small_cnt));
            upd = update_buffer st (fst (merge_feat_vec big_feat big_cnt))
                                   (snd (merge_feat_vec big_feat big_cnt));
            idx = filter (\<lambda>c. c \<noteq> 0 \<and> cnt ! c \<noteq> 0) [0..<length cnt];
            res = meta_loss st (big_feat, big_cnt, small_feat, small_cnt)
        in (idx = [] \<longrightarrow> res = Inr (0, fst upd))
         \<and> (idx \<noteq> [] \<longrightarrow>
              (\<forall>v. snd upd = Vector v \<longrightarrow> res = Inl (IndexError, fst upd))
            \<and> (\<forall>big. snd upd = Matrix big \<longrightarrow>
                 (\<exists>loss. res = Inr (loss, fst upd)
                    \<and> loss * real (length idx * length small)
                        = sum_list (map (\<lambda>c. if c = 0 \<or> cnt ! c = 0 then 0
                                              else sq_err (column small c) (column big c))
                                     [0..<length cnt]))))
         \<and> (length (buffer st) \<noteq> 1 \<longrightarrow> (\<exists>big. snd upd = Matrix big)))"
proof (intro impI, elim conjE)
  assume ne: "buffer st \<noteq> []" and cne: "snd (merge_feat_vec small_feat small_cnt) \<noteq> []"
  let ?inp = "(big_feat, big_cnt, small_feat, small_cnt)"
  obtain bf bc where m: "merge_feat_vec big_feat big_cnt = (bf, bc)"
    by (cases "merge_feat_vec big_feat big_cnt")
  obtain sf sc where ms: "merge_feat_vec small_feat small_cnt = (sf, sc)"
    by (cases "merge_feat_vec small_feat small_cnt")
  obtain st' fb where u: "update_buffer st bf bc = (st', fb)"
    by (cases "update_buffer st bf bc")
  from cne ms have scne: "sc \<noteq> []" by simp
  let ?cnt = "hd sc"
  let ?idx = "filter (\<lambda>c. c \<noteq> 0 \<and> ?cnt ! c \<noteq> 0) [0..<length ?cnt]"
  have hd0: "hd (sc[0 := (hd sc)[0 := 0]]) = (hd sc)[0 := 0]"
    using scne by (cases sc) simp_all
  have idx: "nonzero1 (hd (sc[0 := (hd sc)[0 := 0]])) = ?idx"
    by (simp add: hd0 nonzero1_background)
  have res: "meta_loss st ?inp
       = (if ?idx \<noteq> []
          then (case fb of
                  Matrix big \<Rightarrow> Inr (criterion (select_t sf ?idx) (select_t big ?idx), st')
                | Vector v \<Rightarrow> Inl (IndexError, st'))
          else Inr (0, st'))"
    unfolding idx [symmetric] using ne m ms u by (simp add: meta_loss_def Let_def)
  have l0: "?idx = [] \<longrightarrow> meta_loss st ?inp = Inr (0, st')"
    using res by simp
  have l1: "meta_loss st ?inp = Inl (IndexError, st')" if "?idx \<noteq> []" "fb = Vector v" for v
    using res that by simp
  have l2: "\<exists>loss. meta_loss st ?inp = Inr (loss, st')
                \<and> loss * real (length ?idx * length sf)
                    = sum_list (map (\<lambda>c. if c = 0 \<or> ?cnt ! c = 0 then 0
                                          else sq_err (column sf c) (column big c))
                                 [0..<length ?cnt])"
    if "?idx \<noteq> []" "fb = Matrix big" for big
  proof -
    have "meta_loss st ?inp = Inr (criterion (select_t sf ?idx) (select_t big ?idx), st')"
      using res that by simp
    moreover have "criterion (select_t sf ?idx) (select_t big ?idx) * real (length ?idx * length sf)
        = sum_list (map (\<lambda>c. if c = 0 \<or> ?cnt ! c = 0 then 0
                              else sq_err (column sf c) (column big c)) [0..<length ?cnt])"
      by (simp only: criterion_select sum_selected)
    ultimately show ?thesis by blast
  qed
  have l3: "length (buffer st) \<noteq> 1 \<longrightarrow> (\<exists>big. fb = Matrix big)"
    using update_buffer_ring [of st bf bc] u by simp
  show "let small = fst (merge_feat_vec small_feat small_cnt);
            cnt = hd (snd (merge_feat_vec small_feat small_cnt));
            upd = update_buffer st (fst (merge_feat_vec big_feat big_cnt))
                                   (snd (merge_feat_vec big_feat big_cnt));
            idx = filter (\<lambda>c. c \<noteq> 0 \<and> cnt ! c \<noteq> 0) [0..<length cnt];
            res = meta_loss st (big_feat, big_cnt, small_feat, small_cnt)
        in (idx = [] \<longrightarrow> res = Inr (0, fst upd))
         \<and> (idx \<noteq> [] \<longrightarrow>
              (\<forall>v. snd upd = Vector v \<longrightarrow> res = Inl (IndexError, fst upd))
            \<and> (\<forall>big. snd upd = Matrix big \<longrightarrow>
                 (\<exists>loss. res = Inr (loss, fst upd)
                    \<and> loss * real (length idx * length small)
                        = sum_list (map (\<lambda>c. if c = 0 \<or> cnt ! c = 0 then 0
                                              else sq_err (column small c) (column big c))
                                     [0..<length cnt]))))
         \<and> (length (buffer st) \<noteq> 1 \<longrightarrow> (\<exists>big. snd upd = Matrix big))"
    unfolding Let_def m ms fst_conv snd_conv u
    using l0 l1 l2 l3 by blast
qed

theorem meta_loss_small_classes_witness:
  "\<exists>loss st'. meta_loss fresh_state small_input = Inr (loss, st')
      \<and> buffer_cnt st' = [[[0, 1, 1]]]
      \<and> loss * 2 = sq_err [3 / (1 + EPS), 5 / (1 + EPS)]
                          [1 / (1 + EPS) / (1 + EPS), 2 / (1 + EPS) / (1 + EPS)]"
proof -
  have h: "buffer fresh_state \<noteq> []
     \<and> snd (merge_feat_vec [[[[7, 3, 9], [7, 5, 9]]]] [[[[4, 1, 0]]]]) \<noteq> []"
    by (simp add: fresh_state_def merge_small)
  have u: "[0..<length [4, 1, 0 :: real]] = [0, 1, 2]" by (simp add: upt_rec)
  from meta_loss_small_classes [where st = fresh_state
      and big_feat = "[[[[0, 1, 1], [0, 2, 2]]]]" and big_cnt = "[[[[0, 1, 1]]]]"
      and small_feat = "[[[[7, 3, 9], [7, 5, 9]]]]" and small_cnt = "[[[[4, 1, 0]]]]"]
    h
  show ?thesis
    unfolding small_input_def
    by (auto simp: merge_small merge_big update_fresh u Let_def column_def)
qed

end
